theory Spec2Isabelle
  imports Complex_Main "HOL-Library.Word"
begin

section \<open>Suspicious-activity detection service (app.py)\<close>

text \<open>
  A shallow embedding of \<^verbatim>\<open>src/app.py\<close>: the frame sampler, the inference call, the
  e-mail alerting, the daily summary worker and the in-memory dashboard log.

  Conventions of the model.
  \<^item> Python floats (pixel intensities, probabilities, confidences) are modelled as
    \<^typ>\<open>real\<close>; \<^verbatim>\<open>round(x, n)\<close> is rounding of the exact value to n decimals, ties to even.
  \<^item> Exceptions are values of type \<open>error\<close>; a handler returns \<open>error + 'a\<close> together
    with the state it leaves behind.
  \<^item> The collaborators that the module calls but does not define (OpenCV's colour
    conversion and resize, the two neural models, the MIME table, the SMTP server) are
    inputs: functions of an environment record, or an outcome carried by the event.
  \<^item> \<^verbatim>\<open>random.randint\<close>, \<^verbatim>\<open>uuid.uuid4\<close> and \<^verbatim>\<open>datetime.now\<close> are inputs of the request.
  \<^item> Handlers run one at a time: a trace of events interleaves upload requests, page
    views and wake-ups of the summary thread, each executed as a whole.
\<close>

subsection \<open>Configuration\<close>

definition IMG_SIZE :: nat where
  "IMG_SIZE = 172"

definition NUM_FRAMES :: nat where
  "NUM_FRAMES = 8"

definition FRAME_STEP :: nat where
  "FRAME_STEP = 4"

definition class_names :: "string list" where
  "class_names = [''not_suspicious'', ''suspicious'']"

definition UPLOAD_DIR :: string where
  "UPLOAD_DIR = ''uploads''"

definition ALERT_THRESHOLD :: real where
  "ALERT_THRESHOLD = 80 / 100"

definition MAX_ATTACHMENT_MB :: real where
  "MAX_ATTACHMENT_MB = 22"

subsection \<open>Errors\<close>

text \<open>
  The module defines no exception class of its own and catches none. The exceptions that
  can leave one of its functions are those of the collaborators and of the Python
  operations \<^verbatim>\<open>probs[0]\<close>, \<^verbatim>\<open>np.argmax\<close>, \<^verbatim>\<open>id_to_name[pred_id]\<close> and of the file system.
\<close>

datatype error =
    ModelError      \<comment> \<open>raised by \<^verbatim>\<open>movinet_sig\<close> or \<^verbatim>\<open>clf_model.predict\<close>\<close>
  | IndexError      \<comment> \<open>\<^verbatim>\<open>clf_model.predict(features)[0]\<close> on an empty batch\<close>
  | ValueError      \<comment> \<open>\<^verbatim>\<open>np.argmax\<close> of an empty vector\<close>
  | KeyError        \<comment> \<open>\<^verbatim>\<open>id_to_name[pred_id]\<close> with \<^verbatim>\<open>pred_id\<close> not 0 or 1\<close>
  | OSError         \<comment> \<open>\<^verbatim>\<open>os.path.getsize\<close> or \<^verbatim>\<open>os.remove\<close> of a path that does not exist\<close>
  | SMTPError       \<comment> \<open>raised inside \<^verbatim>\<open>_smtp_send\<close>\<close>

subsection \<open>Videos and frames\<close>

text \<open>
  A decoded frame is a uint8 array of shape height x width x 3; after preparation it is a
  float array. A video is what \<^verbatim>\<open>cv2.VideoCapture\<close> makes of the file: the frame count
  its container reports, and the frames the decoder delivers in order. A file that cannot
  be opened reports 0 frames and delivers none.
\<close>

type_synonym raw_frame = "8 word list list list"
type_synonym frame = "real list list list"
type_synonym clip = "frame list list"

record video =
  frame_count :: int
  frames :: "raw_frame list"

record env =
  cv_resize :: "nat \<times> nat \<Rightarrow> raw_frame \<Rightarrow> raw_frame"
  movinet_sig :: "clip \<Rightarrow> error + real list list"
  clf_predict :: "real list list \<Rightarrow> error + real list list"
  guess_type :: "string \<Rightarrow> (string \<times> string) option"

text \<open>\<^verbatim>\<open>cap.read()\<close> at a position: the frame there and the next position, or a failed read.\<close>

definition cap_read :: "video \<Rightarrow> nat \<Rightarrow> raw_frame option \<times> nat" where
  "cap_read v pos =
     (if pos < length (frames v) then (Some (frames v ! pos), Suc pos) else (None, pos))"

text \<open>\<^verbatim>\<open>for _ in range(k): cap.read()\<close>: reads whose frames are thrown away.\<close>

fun skip_reads :: "video \<Rightarrow> nat \<Rightarrow> nat \<Rightarrow> nat" where
  "skip_reads v 0 pos = pos"
| "skip_reads v (Suc k) pos = skip_reads v k (snd (cap_read v pos))"

text \<open>\<^verbatim>\<open>cv2.cvtColor(frame, cv2.COLOR_BGR2RGB)\<close>: the channels of every pixel in reverse order.\<close>

definition cvtColor_BGR2RGB :: "raw_frame \<Rightarrow> raw_frame" where
  "cvtColor_BGR2RGB fr = map (map rev) fr"

text \<open>\<^verbatim>\<open>frame.astype("float32") / 255.0\<close>\<close>

definition to_unit :: "raw_frame \<Rightarrow> frame" where
  "to_unit fr = map (map (map (\<lambda>b. real (unat b) / 255))) fr"

definition prepare :: "env \<Rightarrow> raw_frame \<Rightarrow> frame" where
  "prepare e fr = to_unit (cv_resize e (IMG_SIZE, IMG_SIZE) (cvtColor_BGR2RGB fr))"

text \<open>\<^verbatim>\<open>np.zeros((IMG_SIZE, IMG_SIZE, 3), dtype=np.float32)\<close>\<close>

definition zero_frame :: frame where
  "zero_frame = replicate IMG_SIZE (replicate IMG_SIZE (replicate 3 0))"

text \<open>
  \<^verbatim>\<open>random.randint(a, b)\<close>: some integer of \<open>[a, b]\<close>, chosen here by a seed; every value
  of the range is the choice of some seed. Its only call has \<open>a \<le> b\<close>.
\<close>

definition randint :: "nat \<Rightarrow> int \<Rightarrow> int \<Rightarrow> int" where
  "randint seed a b = a + int (seed mod nat (b - a + 1))"

definition need :: int where
  "need = 1 + (int NUM_FRAMES - 1) * int FRAME_STEP"

definition choose_start :: "nat \<Rightarrow> int \<Rightarrow> int" where
  "choose_start seed tot = (if need > tot then 0 else randint seed 0 (tot - need))"

text \<open>
  The reading loop \<^verbatim>\<open>for _ in range(NUM_FRAMES)\<close>: the first argument counts the
  iterations left; a failed read leaves the loop.
\<close>

fun read_loop :: "env \<Rightarrow> video \<Rightarrow> nat \<Rightarrow> nat \<Rightarrow> frame list \<Rightarrow> frame list" where
  "read_loop e v 0 pos acc = acc"
| "read_loop e v (Suc n) pos acc =
     (case cap_read v pos of
        (None, _) \<Rightarrow> acc
      | (Some fr, pos') \<Rightarrow>
          read_loop e v n (skip_reads v (FRAME_STEP - 1) pos') (acc @ [prepare e fr]))"

text \<open>\<^verbatim>\<open>while len(frames) < NUM_FRAMES: frames.append(np.zeros(...))\<close>\<close>

function pad_frames :: "frame list \<Rightarrow> frame list" where
  "pad_frames fs = (if length fs < NUM_FRAMES then pad_frames (fs @ [zero_frame]) else fs)"
  by pat_completeness auto
termination
  by (relation "measure (\<lambda>fs. NUM_FRAMES - length fs)") auto

declare pad_frames.simps [simp del]

definition decoded_frames :: "env \<Rightarrow> nat \<Rightarrow> video \<Rightarrow> frame list" where
  "decoded_frames e seed v =
     read_loop e v NUM_FRAMES (nat (choose_start seed (frame_count v))) []"

text \<open>The result has a leading batch axis of length 1 (\<^verbatim>\<open>np.expand_dims(..., axis=0)\<close>).\<close>

definition extract_frames :: "env \<Rightarrow> nat \<Rightarrow> video \<Rightarrow> clip" where
  "extract_frames e seed v = [pad_frames (decoded_frames e seed v)]"

subsection \<open>Inference\<close>

text \<open>\<^verbatim>\<open>np.argmax\<close>: the index of the first greatest element; an empty vector raises.\<close>

fun argmax_from :: "real list \<Rightarrow> nat \<Rightarrow> nat \<Rightarrow> real \<Rightarrow> nat" where
  "argmax_from [] i best bv = best"
| "argmax_from (x # xs) i best bv =
     (if x > bv then argmax_from xs (Suc i) i x else argmax_from xs (Suc i) best bv)"

definition argmax :: "real list \<Rightarrow> error + nat" where
  "argmax xs = (case xs of [] \<Rightarrow> Inl ValueError | x # rest \<Rightarrow> Inr (argmax_from rest 1 0 x))"

text \<open>\<^verbatim>\<open>id_to_name = {i: name for i, name in enumerate(class_names)}\<close>\<close>

definition id_to_name :: "nat \<rightharpoonup> string" where
  "id_to_name i = (if i < length class_names then Some (class_names ! i) else None)"

definition predict_video :: "env \<Rightarrow> nat \<Rightarrow> video \<Rightarrow> error + (string \<times> real)" where
  "predict_video e seed v =
     (let clip = extract_frames e seed v in
      case movinet_sig e clip of
        Inl err \<Rightarrow> Inl err
      | Inr features \<Rightarrow>
          (case clf_predict e features of
             Inl err \<Rightarrow> Inl err
           | Inr out \<Rightarrow>
               (case out of
                  [] \<Rightarrow> Inl IndexError
                | probs # _ \<Rightarrow>
                    (case argmax probs of
                       Inl err \<Rightarrow> Inl err
                     | Inr pred_id \<Rightarrow>
                         (case id_to_name pred_id of
                            None \<Rightarrow> Inl KeyError
                          | Some name \<Rightarrow> Inr (name, probs ! pred_id))))))"

text \<open>
  \<^verbatim>\<open>round(x, nd)\<close> and the format \<^verbatim>\<open>{x:.2f}\<close>: the exact value rounded to \<open>nd\<close> decimals,
  a tie going to the even neighbour.
\<close>

definition py_round :: "real \<Rightarrow> nat \<Rightarrow> real" where
  "py_round x nd =
     (let y = x * 10 ^ nd; f = \<lfloor>y\<rfloor>; d = y - of_int f
      in of_int (if d < 1 / 2 then f else if d > 1 / 2 then f + 1
                 else if even f then f else f + 1) / 10 ^ nd)"

subsection \<open>State, e-mail and the log record\<close>

text \<open>The dict built in \<^verbatim>\<open>predict\<close>; its keys are the fields.\<close>

record log_record =
  time :: string
  filename :: string
  prediction :: string
  confidence :: real
  alert :: string

text \<open>
  An \<^verbatim>\<open>EmailMessage\<close>: the subject (without its leading emoji), the values that the body
  interpolates, and the attachment as main type, subtype, file name and number of bytes.
  The headers From and To are configuration and are left out.
\<close>

datatype content =
    AlertBody string string string real
  | SummaryBody "(string \<times> string \<times> real) list"

record email =
  subject :: string
  content :: content
  attachment :: "(string \<times> string \<times> string \<times> nat) option"

text \<open>
  The module's two global lists, the files of \<^verbatim>\<open>UPLOAD_DIR\<close> with their sizes in bytes,
  every call of \<^verbatim>\<open>_smtp_send\<close> so far (the message, and whether the call returned), and
  whether the summary thread is still running.
\<close>

record state =
  dashboard_logs :: "log_record list"
  daily_alert_buffer :: "log_record list"
  uploads :: "string \<rightharpoonup> nat"
  smtp_calls :: "(email \<times> bool) list"
  worker_alive :: bool

definition init :: state where
  "init = \<lparr>dashboard_logs = [], daily_alert_buffer = [], uploads = Map.empty,
            smtp_calls = [], worker_alive = True\<rparr>"

text \<open>\<^verbatim>\<open>_smtp_send(msg)\<close>: returns, or raises when the server, the login or the transfer fails.\<close>

definition smtp_send :: "bool \<Rightarrow> email \<Rightarrow> state \<Rightarrow> (error + unit) \<times> state" where
  "smtp_send ok msg st =
     (if ok then Inr () else Inl SMTPError, st\<lparr>smtp_calls := smtp_calls st @ [(msg, ok)]\<rparr>)"

subsection \<open>Immediate alert\<close>

text \<open>
  \<^verbatim>\<open>mimetypes.guess_type(path)[0]\<close> is a type of the MIME table, main type and subtype
  already split at the slash, or nothing; \<^verbatim>\<open>or "application/octet-stream"\<close> is the default.
\<close>

text \<open>
  The message that \<^verbatim>\<open>send_email_alert\<close> builds before it calls \<^verbatim>\<open>_smtp_send\<close>, given the
  size that \<^verbatim>\<open>os.path.getsize(video_path)\<close> returned.
\<close>

definition alert_message ::
  "env \<Rightarrow> string \<Rightarrow> string \<Rightarrow> string \<Rightarrow> string \<Rightarrow> real \<Rightarrow> nat \<Rightarrow> email" where
  "alert_message e now_alert video_path fname pred conf size_bytes =
     (let body = AlertBody now_alert fname pred (py_round conf 2);
          size_mb = real size_bytes / (1024 * 1024);
          att = (if size_mb \<le> MAX_ATTACHMENT_MB
                 then (let (m, s) = (case guess_type e video_path of
                                       None \<Rightarrow> (''application'', ''octet-stream'')
                                     | Some ms \<Rightarrow> ms)
                       in Some (m, s, fname, size_bytes))
                 else None)
      in \<lparr>subject = ''Suspicious Activity Detected'', content = body, attachment = att\<rparr>)"

definition send_email_alert ::
  "env \<Rightarrow> bool \<Rightarrow> string \<Rightarrow> string \<Rightarrow> string \<Rightarrow> string \<Rightarrow> real \<Rightarrow> state
     \<Rightarrow> (error + unit) \<times> state" where
  "send_email_alert e ok now_alert video_path fname pred conf st =
     (case uploads st video_path of
        None \<Rightarrow> (Inl OSError, st)
      | Some size_bytes \<Rightarrow>
          smtp_send ok (alert_message e now_alert video_path fname pred conf size_bytes) st)"

subsection \<open>The upload handler\<close>

record upload =
  upload_filename :: string
  upload_size :: nat
  upload_video :: video

text \<open>
  One request: the uploaded file (its name, its length in bytes, and what OpenCV decodes
  from it), the UUID drawn for the temporary name, the seed of the random start, the
  clock read for the record and the clock read for the alert body, and whether the
  SMTP transfer of this request goes through.
\<close>

record request =
  upfile :: upload
  uuid4 :: string
  rseed :: nat
  now :: string
  now_alert :: string
  smtp_ok :: bool

text \<open>\<^verbatim>\<open>file.filename.split(".")[-1]\<close>: what follows the last dot, the whole name without one.\<close>

definition ext_of :: "string \<Rightarrow> string" where
  "ext_of name = rev (takeWhile (\<lambda>c. c \<noteq> CHR ''.'') (rev name))"

definition temp_path :: "request \<Rightarrow> string" where
  "temp_path rq = UPLOAD_DIR @ ''/'' @ uuid4 rq @ ''.'' @ ext_of (upload_filename (upfile rq))"

text \<open>
  What the result page interpolates: the file name, the prediction, the confidence to two
  decimals and the alert status of the record.
\<close>

record result_page =
  page_filename :: string
  page_pred :: string
  page_conf :: real
  page_alert :: string

definition new_record :: "request \<Rightarrow> string \<Rightarrow> real \<Rightarrow> log_record" where
  "new_record rq pred conf =
     \<lparr>time = now rq, filename = upload_filename (upfile rq), prediction = pred,
      confidence = py_round conf 3, alert = ''NO''\<rparr>"

text \<open>
  The tail of the handler, after the alert branch: the record goes to the head of
  \<^verbatim>\<open>dashboard_logs\<close>, the temporary file is removed, the page is rendered.
\<close>

definition finish :: "request \<Rightarrow> string \<Rightarrow> real \<Rightarrow> log_record \<Rightarrow> state
     \<Rightarrow> (error + result_page) \<times> state" where
  "finish rq pred conf record st =
     (let st1 = st\<lparr>dashboard_logs := record # dashboard_logs st\<rparr> in
      case uploads st1 (temp_path rq) of
        None \<Rightarrow> (Inl OSError, st1)
      | Some _ \<Rightarrow>
          (Inr \<lparr>page_filename = upload_filename (upfile rq), page_pred = pred,
                page_conf = py_round conf 2, page_alert = alert record\<rparr>,
           st1\<lparr>uploads := (uploads st1)(temp_path rq := None)\<rparr>))"

definition predict :: "env \<Rightarrow> request \<Rightarrow> state \<Rightarrow> (error + result_page) \<times> state" where
  "predict e rq st =
     (let temp = temp_path rq;
          st1 = st\<lparr>uploads := (uploads st)(temp \<mapsto> upload_size (upfile rq))\<rparr>
      in case predict_video e (rseed rq) (upload_video (upfile rq)) of
           Inl err \<Rightarrow> (Inl err, st1)
         | Inr (pred, conf) \<Rightarrow>
             (let record = new_record rq pred conf in
              if pred = ''suspicious'' \<and> conf \<ge> ALERT_THRESHOLD then
                (case send_email_alert e (smtp_ok rq) (now_alert rq) temp
                        (upload_filename (upfile rq)) pred conf st1 of
                   (Inl err, st2) \<Rightarrow> (Inl err, st2)
                 | (Inr _, st2) \<Rightarrow>
                     (let record' = record\<lparr>alert := ''SENT''\<rparr>;
                          st3 = st2\<lparr>daily_alert_buffer := daily_alert_buffer st2 @ [record']\<rparr>
                      in finish rq pred conf record' st3))
              else finish rq pred conf record st1))"

subsection \<open>Daily summary\<close>

text \<open>
  The summary message: after the heading, one line per buffered record, giving its time,
  file name and confidence, in the order of the buffer.
\<close>

definition summary_message :: "log_record list \<Rightarrow> email" where
  "summary_message buffer =
     (let lines = map (\<lambda>r. (time r, filename r, confidence r)) buffer
      in \<lparr>subject = ''Daily Suspicious Activity Summary'',
          content = SummaryBody lines, attachment = None\<rparr>)"

definition send_daily_summary :: "bool \<Rightarrow> state \<Rightarrow> (error + unit) \<times> state" where
  "send_daily_summary ok st =
     (if daily_alert_buffer st = [] then (Inr (), st)
      else
        (case smtp_send ok (summary_message (daily_alert_buffer st)) st of
           (Inl err, st') \<Rightarrow> (Inl err, st')
         | (Inr _, st') \<Rightarrow> (Inr (), st'\<lparr>daily_alert_buffer := []\<rparr>)))"

text \<open>
  One turn of \<^verbatim>\<open>while True: time.sleep(...); send_daily_summary()\<close>, entered when the sleep
  ends. The loop catches nothing: an exception of \<^verbatim>\<open>send_daily_summary\<close> ends the thread,
  and a thread that has ended takes no further turn.
\<close>

definition summary_worker_turn :: "bool \<Rightarrow> state \<Rightarrow> state" where
  "summary_worker_turn ok st =
     (if worker_alive st then
        (case send_daily_summary ok st of
           (Inl _, st') \<Rightarrow> st'\<lparr>worker_alive := False\<rparr>
         | (Inr _, st') \<Rightarrow> st')
      else st)"

subsection \<open>Reading the log\<close>

text \<open>
  The slice \<^verbatim>\<open>dashboard_logs[:limit]\<close>; \<^verbatim>\<open>home\<close> takes it with limit 10, \<^verbatim>\<open>dashboard\<close> walks
  the whole list. Both return what they render together with the state they leave.
\<close>

definition recent :: "nat \<Rightarrow> state \<Rightarrow> log_record list \<times> state" where
  "recent limit st = (take limit (dashboard_logs st), st)"

definition home :: "state \<Rightarrow> log_record list \<times> state" where
  "home st = recent 10 st"

definition dashboard :: "state \<Rightarrow> log_record list \<times> state" where
  "dashboard st = (dashboard_logs st, st)"

subsection \<open>Traces\<close>

datatype event = Upload request | Wake bool | Home | Dashboard

fun step :: "env \<Rightarrow> event \<Rightarrow> state \<Rightarrow> state" where
  "step e (Upload rq) st = snd (predict e rq st)"
| "step e (Wake ok) st = summary_worker_turn ok st"
| "step e Home st = snd (home st)"
| "step e Dashboard st = snd (dashboard st)"

fun run :: "env \<Rightarrow> event list \<Rightarrow> state \<Rightarrow> state" where
  "run e [] st = st"
| "run e (ev # evs) st = run e evs (step e ev st)"

subsection \<open>Predicates and sample inputs\<close>

text \<open>A prepared frame all of whose intensities lie in the unit interval.\<close>

definition unit_frame :: "frame \<Rightarrow> bool" where
  "unit_frame fr = list_all (list_all (list_all (\<lambda>x. 0 \<le> x \<and> x \<le> 1))) fr"

text \<open>
  An environment for concrete runs: a resize that returns its input, an embedder with a
  one-number feature vector, a classifier that answers the given probabilities.
\<close>

definition stub_env :: "real list \<Rightarrow> env" where
  "stub_env probs =
     \<lparr>cv_resize = (\<lambda>_ fr. fr), movinet_sig = (\<lambda>_. Inr [[0]]),
      clf_predict = (\<lambda>_. Inr [probs]), guess_type = (\<lambda>_. Some (''video'', ''mp4''))\<rparr>"

text \<open>A video of three one-pixel frames, and a file that OpenCV cannot open.\<close>

definition video_short :: video where
  "video_short = \<lparr>frame_count = 3, frames = replicate 3 [[[255, 0, 51]]]\<rparr>"

definition video_empty :: video where
  "video_empty = \<lparr>frame_count = 0, frames = []\<rparr>"

text \<open>An environment whose embedding model raises.\<close>

definition broken_env :: env where
  "broken_env = (stub_env [])\<lparr>movinet_sig := (\<lambda>_. Inl ModelError)\<rparr>"

text \<open>An upload of the short video: its size in bytes and the fate of its SMTP transfer.\<close>

definition sample_request :: "nat \<Rightarrow> bool \<Rightarrow> request" where
  "sample_request sz ok =
     \<lparr>upfile = \<lparr>upload_filename = ''cam1.mp4'', upload_size = sz, upload_video = video_short\<rparr>,
      uuid4 = ''u1'', rseed = 0, now = ''2024-01-01 10:00:00'',
      now_alert = ''2024-01-01 10:00:01'', smtp_ok = ok\<rparr>"

text \<open>An upload of the file that cannot be opened.\<close>

definition empty_request :: "bool \<Rightarrow> request" where
  "empty_request ok =
     \<lparr>upfile = \<lparr>upload_filename = ''bad.mp4'', upload_size = 0, upload_video = video_empty\<rparr>,
      uuid4 = ''u2'', rseed = 0, now = ''2024-01-01 12:00:00'',
      now_alert = ''2024-01-01 12:00:01'', smtp_ok = ok\<rparr>"

text \<open>
  The record \<open>r\<close> comes from a dispatch of the request \<open>rq\<close>: the inference on its video
  gave \<open>suspicious\<close> with a confidence that met the threshold, the alert went out, and
  \<open>r\<close> is the record of that detection, marked SENT.
\<close>

definition dispatched :: "env \<Rightarrow> request \<Rightarrow> log_record \<Rightarrow> bool" where
  "dispatched e rq r =
     (case predict_video e (rseed rq) (upload_video (upfile rq)) of
        Inl _ \<Rightarrow> False
      | Inr (pred, conf) \<Rightarrow>
          pred = ''suspicious'' \<and> ALERT_THRESHOLD \<le> conf \<and> smtp_ok rq
          \<and> r = \<lparr>time = now rq, filename = upload_filename (upfile rq), prediction = pred,
                  confidence = py_round conf 3, alert = ''SENT''\<rparr>)"

text \<open>The upload requests of a trace, in order.\<close>

fun uploads_of :: "event list \<Rightarrow> request list" where
  "uploads_of [] = []"
| "uploads_of (Upload rq # evs) = rq # uploads_of evs"
| "uploads_of (_ # evs) = uploads_of evs"

text \<open>
  Whether the handler answers a request with a page. The uploads of a trace that do, in
  the order of the trace.
\<close>

definition completes :: "env \<Rightarrow> request \<Rightarrow> bool" where
  "completes e rq = (case fst (predict e rq init) of Inl _ \<Rightarrow> False | Inr _ \<Rightarrow> True)"

fun completed :: "env \<Rightarrow> event list \<Rightarrow> request list" where
  "completed e [] = []"
| "completed e (Upload rq # evs) = (if completes e rq then rq # completed e evs else completed e evs)"
| "completed e (_ # evs) = completed e evs"

section \<open>Properties\<close>

subsection \<open>Frame sampling\<close>

lemma pad_frames_eq:
  "pad_frames fs = fs @ replicate (NUM_FRAMES - length fs) zero_frame"
proof (induction fs rule: pad_frames.induct)
  case (1 fs)
  show ?case
  proof (cases "length fs < NUM_FRAMES")
    case True
    then have "NUM_FRAMES - length fs = Suc (NUM_FRAMES - Suc (length fs))" by simp
    with True 1 show ?thesis
      by (subst pad_frames.simps) (simp add: replicate_app_Cons_same)
  next
    case False
    then show ?thesis by (subst pad_frames.simps) simp
  qed
qed

lemma length_read_loop: "length (read_loop e v n pos acc) \<le> length acc + n"
proof (induction n arbitrary: pos acc)
  case 0
  then show ?case by simp
next
  case (Suc n)
  show ?case
  proof (cases "cap_read v pos")
    case (Pair r pos')
    then show ?thesis
    proof (cases r)
      case None
      with Pair show ?thesis by simp
    next
      case (Some fr)
      with Pair Suc [of "skip_reads v (FRAME_STEP - 1) pos'" "acc @ [prepare e fr]"]
      show ?thesis by simp
    qed
  qed
qed

lemma unat_byte_le: "unat (b :: 8 word) \<le> 255"
  using unsigned_less [of b, where 'a = nat] by simp

lemma byte_real_range: "0 \<le> (unsigned (b :: 8 word) :: real) \<and> (unsigned b :: real) \<le> 255"
proof -
  have eq: "(unsigned b :: real) = real (unat b)" by simp
  have "real (unat b) \<le> 255" using unat_byte_le [of b] by linarith
  moreover have "0 \<le> real (unat b)" by (rule of_nat_0_le_iff)
  ultimately show ?thesis unfolding eq by blast
qed

lemma unit_frame_to_unit: "unit_frame (to_unit fr)"
  by (simp add: unit_frame_def to_unit_def list_all_iff byte_real_range)

lemma unit_frame_zero: "unit_frame zero_frame"
  by (simp add: unit_frame_def zero_frame_def list_all_iff)

lemma read_loop_unit:
  "list_all unit_frame acc \<Longrightarrow> list_all unit_frame (read_loop e v n pos acc)"
proof (induction n arbitrary: pos acc)
  case 0
  then show ?case by simp
next
  case (Suc n)
  then show ?case
    by (auto simp: prepare_def unit_frame_to_unit split: prod.splits option.splits)
qed

lemma choose_start_range:
  "0 \<le> choose_start seed tot \<and> choose_start seed tot \<le> max 0 (tot - need)"
proof (cases "need > tot")
  case True
  then show ?thesis by (simp add: choose_start_def)
next
  case False
  then have "int (seed mod nat (tot - need + 1)) \<le> tot - need"
    using mod_less_divisor [of "nat (tot - need + 1)" seed] by linarith
  with False show ?thesis by (simp add: choose_start_def randint_def)
qed

lemma need_val: "need = 29"
  by (simp add: need_def NUM_FRAMES_def FRAME_STEP_def)

lemma length_decoded_frames: "length (decoded_frames e seed v) \<le> NUM_FRAMES"
  using length_read_loop [of e v NUM_FRAMES _ "[]"] by (simp add: decoded_frames_def)

lemma decoded_frames_unit: "list_all unit_frame (decoded_frames e seed v)"
  by (simp add: decoded_frames_def read_loop_unit)

text \<open>
  C7. Whatever the video, the clip holds exactly \<open>NUM_FRAMES = 8\<close> frames, all with
  intensities in \<open>[0, 1]\<close>. The start index lies in \<open>[0, T - span]\<close> when the reported
  frame count \<open>T\<close> is at least \<open>span = 1 + (N - 1) * stride\<close>, and is 0 when \<open>T < span\<close>
  (the bound \<open>max 0 (T - span)\<close> says both). The clip is the frames that were decoded
  followed by all-zero frames of shape 172 x 172 x 3.
\<close>

theorem extract_frames_clip:
  "\<exists>fs. extract_frames e seed v = [fs]
      \<and> length fs = NUM_FRAMES \<and> NUM_FRAMES = 8
      \<and> list_all unit_frame fs
      \<and> 0 \<le> choose_start seed (frame_count v)
      \<and> choose_start seed (frame_count v) \<le> max 0 (frame_count v - need)
      \<and> need = 1 + (int NUM_FRAMES - 1) * int FRAME_STEP
      \<and> length (decoded_frames e seed v) \<le> NUM_FRAMES
      \<and> fs = decoded_frames e seed v
             @ replicate (NUM_FRAMES - length (decoded_frames e seed v)) zero_frame
      \<and> zero_frame = replicate 172 (replicate 172 [0, 0, 0])"
proof -
  let ?d = "decoded_frames e seed v"
  let ?fs = "pad_frames ?d"
  have len: "length ?d \<le> NUM_FRAMES" by (rule length_decoded_frames)
  have eq: "?fs = ?d @ replicate (NUM_FRAMES - length ?d) zero_frame" by (rule pad_frames_eq)
  have l: "length ?fs = NUM_FRAMES" using len by (simp add: eq)
  have "list_all unit_frame (replicate (NUM_FRAMES - length ?d) zero_frame)"
    by (simp add: list_all_iff unit_frame_zero)
  then have u: "list_all unit_frame ?fs"
    by (simp add: eq decoded_frames_unit)
  have three: "replicate 3 (0::real) = [0, 0, 0]" by (simp add: numeral_3_eq_3)
  have z: "zero_frame = replicate 172 (replicate 172 [0, 0, 0])"
    by (simp only: zero_frame_def IMG_SIZE_def three)
  have n: "NUM_FRAMES = 8" by (simp add: NUM_FRAMES_def)
  have x: "extract_frames e seed v = [?fs]" by (simp add: extract_frames_def)
  note c = choose_start_range [of seed "frame_count v"]
  show ?thesis
    apply (rule exI [of _ ?fs])
    apply (intro conjI)
    apply (rule x)
    apply (rule l)
    apply (rule n)
    apply (rule u)
    apply (rule conjunct1 [OF c])
    apply (rule conjunct2 [OF c])
    apply (rule need_def)
    apply (rule len)
    apply (rule eq)
    apply (rule z)
    done
qed

lemma read_loop_numeral:
  "read_loop e v (numeral k) pos acc =
     (case cap_read v pos of
        (None, _) \<Rightarrow> acc
      | (Some fr, pos') \<Rightarrow>
          read_loop e v (pred_numeral k) (skip_reads v (FRAME_STEP - 1) pos') (acc @ [prepare e fr]))"
  by (simp add: numeral_eq_Suc)

lemma skip_reads_numeral:
  "skip_reads v (numeral k) pos = skip_reads v (pred_numeral k) (snd (cap_read v pos))"
  by (simp add: numeral_eq_Suc)

theorem extract_frames_clip_witness:
  "extract_frames (stub_env []) 5 video_short
     = [[[[1 / 5, 0, 1]]] # replicate 7 zero_frame]
   \<and> choose_start 5 (frame_count video_short) = 0"
proof -
  have d: "decoded_frames (stub_env []) 5 video_short = [[[[1 / 5, 0, 1]]]]"
    by (simp add: decoded_frames_def choose_start_def need_val video_short_def NUM_FRAMES_def
        FRAME_STEP_def read_loop_numeral skip_reads_numeral cap_read_def prepare_def
        stub_env_def to_unit_def cvtColor_BGR2RGB_def)
  have c: "choose_start 5 (frame_count video_short) = 0"
    by (simp add: choose_start_def need_val video_short_def)
  have r: "replicate (8 - Suc 0) zero_frame = replicate 7 zero_frame" by simp
  from extract_frames_clip [of "stub_env []" 5 video_short]
  obtain fs where "extract_frames (stub_env []) 5 video_short = [fs]"
    and "fs = decoded_frames (stub_env []) 5 video_short
           @ replicate (NUM_FRAMES - length (decoded_frames (stub_env []) 5 video_short)) zero_frame"
    by blast
  then have "extract_frames (stub_env []) 5 video_short
     = [[[[1 / 5, 0, 1]]] # replicate 7 zero_frame]"
    by (simp only: d NUM_FRAMES_def list.size append.simps r One_nat_def add_0)
  with c show ?thesis by blast
qed

subsection \<open>The alert and the upload handler, path by path\<close>

lemma alert_message_content:
  "content (alert_message e t p f pred conf n) = AlertBody t f pred (py_round conf 2)"
  by (simp add: alert_message_def Let_def)

lemma alert_message_attachment:
  "attachment (alert_message e t p f pred conf n) =
     (if real n / (1024 * 1024) \<le> MAX_ATTACHMENT_MB
      then Some (fst (case guess_type e p of None \<Rightarrow> (''application'', ''octet-stream'') | Some ms \<Rightarrow> ms),
                 snd (case guess_type e p of None \<Rightarrow> (''application'', ''octet-stream'') | Some ms \<Rightarrow> ms),
                 f, n)
      else None)"
  by (simp add: alert_message_def Let_def split: prod.splits option.splits)

lemma send_email_alert_sends:
  assumes "uploads st p = Some n"
  shows "send_email_alert e ok t p f pred conf st
            = (if ok then Inr () else Inl SMTPError,
               st\<lparr>smtp_calls := smtp_calls st @ [(alert_message e t p f pred conf n, ok)]\<rparr>)"
  using assms by (simp add: send_email_alert_def smtp_send_def)

lemma predict_failed:
  assumes "predict_video e (rseed rq) (upload_video (upfile rq)) = Inl err"
  shows "predict e rq st
           = (Inl err, st\<lparr>uploads := (uploads st)(temp_path rq \<mapsto> upload_size (upfile rq))\<rparr>)"
  using assms by (simp add: predict_def Let_def)

lemma predict_quiet:
  assumes "predict_video e (rseed rq) (upload_video (upfile rq)) = Inr (pred, conf)"
    and "\<not> (pred = ''suspicious'' \<and> ALERT_THRESHOLD \<le> conf)"
  shows "predict e rq st
           = (Inr \<lparr>page_filename = upload_filename (upfile rq), page_pred = pred,
                   page_conf = py_round conf 2, page_alert = ''NO''\<rparr>,
              st\<lparr>dashboard_logs := new_record rq pred conf # dashboard_logs st,
                 uploads := (uploads st)(temp_path rq := None)\<rparr>)"
proof -
  have "predict e rq st = finish rq pred conf (new_record rq pred conf)
          (st\<lparr>uploads := (uploads st)(temp_path rq \<mapsto> upload_size (upfile rq))\<rparr>)"
    using assms by (auto simp: predict_def Let_def)
  then show ?thesis
    by (simp add: finish_def new_record_def)
qed

lemma predict_alert:
  assumes "predict_video e (rseed rq) (upload_video (upfile rq)) = Inr (''suspicious'', conf)"
    and "ALERT_THRESHOLD \<le> conf"
  shows "predict e rq st =
              (if smtp_ok rq then
                 (Inr \<lparr>page_filename = upload_filename (upfile rq), page_pred = ''suspicious'',
                       page_conf = py_round conf 2, page_alert = ''SENT''\<rparr>,
                  st\<lparr>dashboard_logs :=
                        (new_record rq ''suspicious'' conf)\<lparr>alert := ''SENT''\<rparr> # dashboard_logs st,
                     daily_alert_buffer :=
                        daily_alert_buffer st @ [(new_record rq ''suspicious'' conf)\<lparr>alert := ''SENT''\<rparr>],
                     smtp_calls := smtp_calls st @
                        [(alert_message e (now_alert rq) (temp_path rq) (upload_filename (upfile rq))
                            ''suspicious'' conf (upload_size (upfile rq)), True)],
                     uploads := (uploads st)(temp_path rq := None)\<rparr>)
               else
                 (Inl SMTPError,
                  st\<lparr>smtp_calls := smtp_calls st @
                        [(alert_message e (now_alert rq) (temp_path rq) (upload_filename (upfile rq))
                            ''suspicious'' conf (upload_size (upfile rq)), False)],
                     uploads := (uploads st)(temp_path rq \<mapsto> upload_size (upfile rq))\<rparr>))"
  using assms
  by (simp add: predict_def Let_def finish_def new_record_def send_email_alert_sends)

subsection \<open>Sample runs and rounding\<close>

lemma predict_video_stub:
  "predict_video (stub_env [p0, p1]) seed v =
     Inr (if p0 < p1 then (''suspicious'', p1) else (''not_suspicious'', p0))"
  by (simp add: predict_video_def stub_env_def argmax_def id_to_name_def class_names_def Let_def)

lemma predict_video_broken: "predict_video broken_env seed v = Inl ModelError"
  by (simp add: predict_video_def broken_env_def Let_def)

lemma py_round_7996: "py_round (7996 / 10000) 3 = 4 / 5"
  by (simp add: py_round_def Let_def)

lemma py_round_900: "py_round (9 / 10) 3 = 9 / 10"
  by (simp add: py_round_def Let_def)

lemma py_round_tie: "py_round (625 / 10000) 3 = 62 / 1000"
  by (simp add: py_round_def Let_def)

lemma py_round_threshold:
  assumes "ALERT_THRESHOLD \<le> conf"
  shows "ALERT_THRESHOLD \<le> py_round conf 3"
proof -
  let ?y = "conf * 10 ^ 3"
  have "800 \<le> ?y" using assms by (simp add: ALERT_THRESHOLD_def)
  then have f: "800 \<le> \<lfloor>?y\<rfloor>" by (simp add: le_floor_iff)
  define k where "k = (if ?y - of_int \<lfloor>?y\<rfloor> < 1 / 2 then \<lfloor>?y\<rfloor>
       else if ?y - of_int \<lfloor>?y\<rfloor> > 1 / 2 then \<lfloor>?y\<rfloor> + 1
       else if even \<lfloor>?y\<rfloor> then \<lfloor>?y\<rfloor> else \<lfloor>?y\<rfloor> + 1)"
  have "800 \<le> k" using f by (simp add: k_def)
  then have "(800::real) \<le> of_int k" by linarith
  moreover have "py_round conf 3 = of_int k / 10 ^ 3"
    by (simp add: py_round_def Let_def k_def)
  ultimately show ?thesis by (simp add: ALERT_THRESHOLD_def)
qed

subsection \<open>Failures of inference and of delivery\<close>

text \<open>
  C1, as stated, fails. A suspicious detection of confidence 0.9 whose SMTP transfer
  fails: the handler ends with the SMTP exception, and the log stays empty; there is no
  page and no entry of status FAILED.
\<close>

theorem delivery_failure_counterexample:
  "fst (predict (stub_env [1 / 10, 9 / 10]) (sample_request 1000 False) init) = Inl SMTPError
   \<and> dashboard_logs (snd (predict (stub_env [1 / 10, 9 / 10]) (sample_request 1000 False) init)) = []
   \<and> \<not> (\<exists>pg r. fst (predict (stub_env [1 / 10, 9 / 10]) (sample_request 1000 False) init) = Inr pg
               \<and> dashboard_logs (snd (predict (stub_env [1 / 10, 9 / 10]) (sample_request 1000 False) init)) = [r]
               \<and> alert r = ''FAILED'')"
proof -
  have pv: "predict_video (stub_env [1 / 10, 9 / 10]) (rseed (sample_request 1000 False))
              (upload_video (upfile (sample_request 1000 False))) = Inr (''suspicious'', 9 / 10)"
    by (simp add: predict_video_stub)
  have th: "ALERT_THRESHOLD \<le> 9 / 10" by (simp add: ALERT_THRESHOLD_def)
  have ok: "smtp_ok (sample_request 1000 False) = False" by (simp add: sample_request_def)
  show ?thesis
    by (simp add: predict_alert [OF pv th] ok init_def)
qed

text \<open>
  C1, amended. When the result triggers the alert and sending it fails, the exception of
  \<^verbatim>\<open>_smtp_send\<close> leaves the handler: the request ends with that error, and neither
  \<^verbatim>\<open>dashboard_logs\<close> nor the daily buffer receives a record. One transfer was attempted.
\<close>

theorem delivery_failure_propagates:
  assumes "predict_video e (rseed rq) (upload_video (upfile rq)) = Inr (''suspicious'', conf)"
    and "ALERT_THRESHOLD \<le> conf"
    and "\<not> smtp_ok rq"
  shows "fst (predict e rq st) = Inl SMTPError
       \<and> dashboard_logs (snd (predict e rq st)) = dashboard_logs st
       \<and> daily_alert_buffer (snd (predict e rq st)) = daily_alert_buffer st
       \<and> smtp_calls (snd (predict e rq st)) = smtp_calls st @
            [(alert_message e (now_alert rq) (temp_path rq) (upload_filename (upfile rq))
                ''suspicious'' conf (upload_size (upfile rq)), False)]"
  using assms(3) by (simp add: predict_alert [OF assms(1,2)])

theorem delivery_failure_propagates_witness:
  "fst (predict (stub_env [0, 1]) (sample_request 5 False) init) = Inl SMTPError
   \<and> dashboard_logs (snd (predict (stub_env [0, 1]) (sample_request 5 False) init)) = []
   \<and> daily_alert_buffer (snd (predict (stub_env [0, 1]) (sample_request 5 False) init)) = []
   \<and> length (smtp_calls (snd (predict (stub_env [0, 1]) (sample_request 5 False) init))) = 1"
proof -
  have pv: "predict_video (stub_env [0, 1]) (rseed (sample_request 5 False))
              (upload_video (upfile (sample_request 5 False))) = Inr (''suspicious'', 1)"
    by (simp add: predict_video_stub)
  have th: "ALERT_THRESHOLD \<le> 1" by (simp add: ALERT_THRESHOLD_def)
  have ok: "\<not> smtp_ok (sample_request 5 False)" by (simp add: sample_request_def)
  from delivery_failure_propagates [OF pv th ok, of init]
  show ?thesis by (simp add: init_def)
qed

text \<open>
  C6. The alert for a file that is there is always handed to \<^verbatim>\<open>_smtp_send\<close>, whatever the
  size of the file; the message carries the video as attachment exactly when the size in
  units of 1024 * 1024 bytes is at most \<open>MAX_ATTACHMENT_MB = 22\<close>.
\<close>

theorem attachment_size_rule:
  assumes "uploads st video_path = Some size_bytes"
  shows "send_email_alert e ok t video_path fname pred conf st
           = (if ok then Inr () else Inl SMTPError,
              st\<lparr>smtp_calls := smtp_calls st
                    @ [(alert_message e t video_path fname pred conf size_bytes, ok)]\<rparr>)
       \<and> (attachment (alert_message e t video_path fname pred conf size_bytes) \<noteq> None)
           = (real size_bytes / (1024 * 1024) \<le> MAX_ATTACHMENT_MB)
       \<and> MAX_ATTACHMENT_MB = 22
       \<and> content (alert_message e t video_path fname pred conf size_bytes)
           = AlertBody t fname pred (py_round conf 2)"
  by (simp add: send_email_alert_sends [OF assms] alert_message_attachment alert_message_content
      MAX_ATTACHMENT_MB_def)

theorem attachment_size_rule_witness:
  "send_email_alert (stub_env []) True ''t'' ''uploads/u1.mp4'' ''cam1.mp4'' ''suspicious'' (9 / 10)
       (init\<lparr>uploads := [''uploads/u1.mp4'' \<mapsto> 23 * 1024 * 1024]\<rparr>)
     = (Inr (), init\<lparr>uploads := [''uploads/u1.mp4'' \<mapsto> 23 * 1024 * 1024],
                     smtp_calls := [(\<lparr>subject = ''Suspicious Activity Detected'',
                         content = AlertBody ''t'' ''cam1.mp4'' ''suspicious'' (9 / 10),
                         attachment = None\<rparr>, True)]\<rparr>)
   \<and> attachment (alert_message (stub_env []) ''t'' ''uploads/u1.mp4'' ''cam1.mp4'' ''suspicious''
         (9 / 10) (10 * 1024 * 1024))
     = Some (''video'', ''mp4'', ''cam1.mp4'', 10 * 1024 * 1024)"
proof -
  let ?st = "init\<lparr>uploads := [''uploads/u1.mp4'' \<mapsto> 23 * 1024 * 1024]\<rparr>"
  have u: "uploads ?st ''uploads/u1.mp4'' = Some (23 * 1024 * 1024)" by simp
  have r: "py_round (9 / 10) 2 = 9 / 10" by (simp add: py_round_def Let_def)
  from attachment_size_rule [OF u, of "stub_env []" True "''t''" "''cam1.mp4''" "''suspicious''" "9 / 10"]
  have "send_email_alert (stub_env []) True ''t'' ''uploads/u1.mp4'' ''cam1.mp4'' ''suspicious'' (9 / 10) ?st
     = (Inr (), ?st\<lparr>smtp_calls := smtp_calls ?st @
          [(alert_message (stub_env []) ''t'' ''uploads/u1.mp4'' ''cam1.mp4'' ''suspicious'' (9 / 10)
              (23 * 1024 * 1024), True)]\<rparr>)"
    by simp
  moreover have "alert_message (stub_env []) ''t'' ''uploads/u1.mp4'' ''cam1.mp4'' ''suspicious''
        (9 / 10) (23 * 1024 * 1024)
      = \<lparr>subject = ''Suspicious Activity Detected'',
         content = AlertBody ''t'' ''cam1.mp4'' ''suspicious'' (9 / 10), attachment = None\<rparr>"
    by (simp add: alert_message_def Let_def r MAX_ATTACHMENT_MB_def)
  moreover have "attachment (alert_message (stub_env []) ''t'' ''uploads/u1.mp4'' ''cam1.mp4''
        ''suspicious'' (9 / 10) (10 * 1024 * 1024))
      = Some (''video'', ''mp4'', ''cam1.mp4'', 10 * 1024 * 1024)"
    by (simp add: alert_message_attachment MAX_ATTACHMENT_MB_def stub_env_def)
  ultimately show ?thesis by (simp add: init_def)
qed

subsection \<open>Videos that deliver no frame\<close>

lemma read_loop_first_fails:
  "length (frames v) \<le> pos \<Longrightarrow> read_loop e v (Suc n) pos acc = acc"
  by (simp add: cap_read_def)

lemma decoded_frames_none:
  assumes "length (frames v) \<le> nat (choose_start seed (frame_count v))"
  shows "decoded_frames e seed v = []"
proof -
  have "NUM_FRAMES = Suc 7" by (simp add: NUM_FRAMES_def)
  then show ?thesis
    using read_loop_first_fails [OF assms, of e 7 "[]"] by (simp add: decoded_frames_def)
qed

text \<open>
  C2, as stated, fails. For a file that cannot be opened (no frame count, no frame) the
  sampler returns a clip of eight all-zero frames, and the inference call goes on to
  classify it: its caller receives a label and a confidence, not a failure.
\<close>

theorem zero_decode_counterexample:
  "extract_frames (stub_env [9 / 10, 1 / 10]) 0 video_empty = [replicate 8 zero_frame]
   \<and> predict_video (stub_env [9 / 10, 1 / 10]) 0 video_empty = Inr (''not_suspicious'', 9 / 10)"
proof -
  have "length (frames video_empty) \<le> nat (choose_start 0 (frame_count video_empty))"
    by (simp add: video_empty_def)
  from decoded_frames_none [OF this]
  have "extract_frames (stub_env [9 / 10, 1 / 10]) 0 video_empty = [replicate 8 zero_frame]"
    by (simp add: extract_frames_def pad_frames_eq NUM_FRAMES_def)
  moreover have "predict_video (stub_env [9 / 10, 1 / 10]) 0 video_empty
      = Inr (''not_suspicious'', 9 / 10)"
    using predict_video_stub [of "9 / 10" "1 / 10" 0 video_empty] by simp
  ultimately show ?thesis by (rule conjI)
qed

text \<open>
  C2, amended. When no frame can be decoded (the first read, at the start index, already
  fails; in particular when the file cannot be opened and delivers no frame at all),
  the sampler reports nothing: it returns a clip of \<open>NUM_FRAMES\<close> all-zero frames.
\<close>

theorem zero_decode_gives_zero_clip:
  assumes "length (frames v) \<le> nat (choose_start seed (frame_count v))"
  shows "decoded_frames e seed v = []
       \<and> extract_frames e seed v = [replicate NUM_FRAMES zero_frame]"
  by (simp add: decoded_frames_none [OF assms] extract_frames_def pad_frames_eq)

theorem zero_decode_gives_zero_clip_witness:
  "length (frames video_empty) \<le> nat (choose_start 7 (frame_count video_empty))
   \<and> extract_frames broken_env 7 video_empty = [replicate 8 zero_frame]"
proof -
  have h: "length (frames video_empty) \<le> nat (choose_start 7 (frame_count video_empty))"
    by (simp add: video_empty_def)
  from zero_decode_gives_zero_clip [OF h, of broken_env] h
  show ?thesis by (simp add: NUM_FRAMES_def)
qed

subsection \<open>The daily buffer along a trace\<close>

lemma summary_worker_turn_eq:
  "summary_worker_turn ok st =
     (if worker_alive st \<and> daily_alert_buffer st \<noteq> [] then
        (if ok then
           st\<lparr>smtp_calls := smtp_calls st @ [(summary_message (daily_alert_buffer st), True)],
              daily_alert_buffer := []\<rparr>
         else
           st\<lparr>smtp_calls := smtp_calls st @ [(summary_message (daily_alert_buffer st), False)],
              worker_alive := False\<rparr>)
      else st)"
  by (simp add: summary_worker_turn_def send_daily_summary_def smtp_send_def)

lemma sample_pv:
  "predict_video (stub_env [1 / 10, 9 / 10]) (rseed (sample_request n ok))
     (upload_video (upfile (sample_request n ok))) = Inr (''suspicious'', 9 / 10)"
  by (simp add: predict_video_stub)

lemma threshold_900: "ALERT_THRESHOLD \<le> 9 / 10"
  by (simp add: ALERT_THRESHOLD_def)

lemma sample_upload_sent:
  "daily_alert_buffer (snd (predict (stub_env [1 / 10, 9 / 10]) (sample_request n True) st))
     = daily_alert_buffer st
       @ [\<lparr>time = ''2024-01-01 10:00:00'', filename = ''cam1.mp4'', prediction = ''suspicious'',
           confidence = 9 / 10, alert = ''SENT''\<rparr>]
   \<and> worker_alive (snd (predict (stub_env [1 / 10, 9 / 10]) (sample_request n True) st))
       = worker_alive st
   \<and> length (smtp_calls (snd (predict (stub_env [1 / 10, 9 / 10]) (sample_request n True) st)))
       = Suc (length (smtp_calls st))"
proof -
  have ok: "smtp_ok (sample_request n True)" by (simp add: sample_request_def)
  show ?thesis
    apply (simp only: predict_alert [OF sample_pv threshold_900] ok if_True)
    using py_round_900 apply (simp add: new_record_def sample_request_def)
    done
qed

text \<open>
  C4, as stated, fails. After an upload that put one record into the buffer, a summary
  whose SMTP transfer fails does not clear the buffer and ends the thread; when the next
  summary hour comes nothing runs, so the record stays and no further mail is attempted.
\<close>

theorem digest_failure_counterexample:
  "length (daily_alert_buffer
        (run (stub_env [1 / 10, 9 / 10]) [Upload (sample_request 5 True), Wake False] init)) = 1
   \<and> \<not> worker_alive
        (run (stub_env [1 / 10, 9 / 10]) [Upload (sample_request 5 True), Wake False] init)
   \<and> length (daily_alert_buffer
        (run (stub_env [1 / 10, 9 / 10]) [Upload (sample_request 5 True), Wake False, Wake True] init)) = 1
   \<and> map snd (smtp_calls
        (run (stub_env [1 / 10, 9 / 10]) [Upload (sample_request 5 True), Wake False, Wake True] init))
       = [True, False]"
proof -
  let ?e = "stub_env [1 / 10, 9 / 10]"
  let ?s1 = "snd (predict ?e (sample_request 5 True) init)"
  have ok: "smtp_ok (sample_request 5 True)" by (simp add: sample_request_def)
  have b: "length (daily_alert_buffer ?s1) = 1" and w: "worker_alive ?s1"
    and c: "map snd (smtp_calls ?s1) = [True]"
    using ok by (simp_all add: predict_alert [OF sample_pv threshold_900] init_def)
  have ne: "daily_alert_buffer ?s1 \<noteq> []" using b by auto
  show ?thesis
    using b w c ne by (simp add: summary_worker_turn_eq)
qed

text \<open>
  C4, amended. A turn of a running summary thread whose send succeeds leaves the buffer
  empty, having sent one summary that lists the buffered records in order (no mail when
  the buffer was empty). A turn whose send fails leaves the buffer as it was and ends
  the thread; a thread that has ended changes nothing, so a failed summary is neither
  retried nor followed by another.
\<close>

theorem digest_turn:
  "summary_worker_turn ok st =
     (if worker_alive st \<and> daily_alert_buffer st \<noteq> [] then
        (if ok then
           st\<lparr>smtp_calls := smtp_calls st @ [(summary_message (daily_alert_buffer st), True)],
              daily_alert_buffer := []\<rparr>
         else
           st\<lparr>smtp_calls := smtp_calls st @ [(summary_message (daily_alert_buffer st), False)],
              worker_alive := False\<rparr>)
      else st)
   \<and> daily_alert_buffer (summary_worker_turn ok st)
       = (if worker_alive st \<and> ok then [] else daily_alert_buffer st)
   \<and> content (summary_message (daily_alert_buffer st))
       = SummaryBody (map (\<lambda>r. (time r, filename r, confidence r)) (daily_alert_buffer st))"
  by (simp add: summary_worker_turn_eq summary_message_def Let_def)

theorem digest_turn_witness:
  "daily_alert_buffer
        (run (stub_env [1 / 10, 9 / 10]) [Upload (sample_request 5 True), Wake True] init) = []
   \<and> map (content \<circ> fst) (smtp_calls
        (run (stub_env [1 / 10, 9 / 10]) [Upload (sample_request 5 True), Wake True] init))
       = [AlertBody ''2024-01-01 10:00:01'' ''cam1.mp4'' ''suspicious'' (9 / 10),
          SummaryBody [(''2024-01-01 10:00:00'', ''cam1.mp4'', 9 / 10)]]"
proof -
  let ?e = "stub_env [1 / 10, 9 / 10]"
  let ?s1 = "snd (predict ?e (sample_request 5 True) init)"
  have ok: "smtp_ok (sample_request 5 True)" by (simp add: sample_request_def)
  have r2: "py_round (9 / 10) 2 = 9 / 10" by (simp add: py_round_def Let_def)
  have b: "daily_alert_buffer ?s1 = [\<lparr>time = ''2024-01-01 10:00:00'', filename = ''cam1.mp4'',
         prediction = ''suspicious'', confidence = 9 / 10, alert = ''SENT''\<rparr>]"
    using sample_upload_sent [of 5 init] by (simp add: init_def)
  have w: "worker_alive ?s1"
    using sample_upload_sent [of 5 init] by (simp add: init_def)
  have c: "map (content \<circ> fst) (smtp_calls ?s1)
       = [AlertBody ''2024-01-01 10:00:01'' ''cam1.mp4'' ''suspicious'' (9 / 10)]"
    apply (simp only: predict_alert [OF sample_pv threshold_900] ok if_True)
    using r2 apply (simp add: init_def alert_message_content sample_request_def)
    done
  from digest_turn [of True ?s1] b w c
  show ?thesis by (simp add: summary_message_def)
qed

subsection \<open>The dashboard log\<close>

lemma predict_fst_indep: "fst (predict e rq st) = fst (predict e rq st')"
proof (cases "predict_video e (rseed rq) (upload_video (upfile rq))")
  case (Inl err)
  then show ?thesis by (simp add: predict_failed)
next
  case (Inr pc)
  obtain pred conf where pc: "pc = (pred, conf)" by (cases pc)
  show ?thesis
  proof (cases "pred = ''suspicious'' \<and> ALERT_THRESHOLD \<le> conf")
    case True
    with Inr pc
    have pv: "predict_video e (rseed rq) (upload_video (upfile rq)) = Inr (''suspicious'', conf)"
      and th: "ALERT_THRESHOLD \<le> conf" by simp_all
    show ?thesis by (simp add: predict_alert [OF pv th])
  next
    case False
    from Inr pc have pv: "predict_video e (rseed rq) (upload_video (upfile rq)) = Inr (pred, conf)"
      by simp
    show ?thesis by (simp add: predict_quiet [OF pv False])
  qed
qed

lemma predict_logs_head:
  "\<exists>r. time r = now rq \<and> filename r = upload_filename (upfile rq)
       \<and> dashboard_logs (snd (predict e rq st))
           = (if completes e rq then [r] else []) @ dashboard_logs st"
proof (cases "predict_video e (rseed rq) (upload_video (upfile rq))")
  case (Inl err)
  have "\<not> completes e rq" by (simp add: completes_def predict_failed [OF Inl])
  then show ?thesis
    by (intro exI [of _ "new_record rq [] 0"]) (simp add: predict_failed [OF Inl] new_record_def)
next
  case (Inr pc)
  obtain pred conf where pc: "pc = (pred, conf)" by (cases pc)
  show ?thesis
  proof (cases "pred = ''suspicious'' \<and> ALERT_THRESHOLD \<le> conf")
    case True
    with Inr pc
    have pv: "predict_video e (rseed rq) (upload_video (upfile rq)) = Inr (''suspicious'', conf)"
      and th: "ALERT_THRESHOLD \<le> conf" by simp_all
    have "completes e rq = smtp_ok rq" by (simp add: completes_def predict_alert [OF pv th])
    then show ?thesis
      by (intro exI [of _ "(new_record rq ''suspicious'' conf)\<lparr>alert := ''SENT''\<rparr>"])
        (simp add: predict_alert [OF pv th] new_record_def)
  next
    case False
    from Inr pc have pv: "predict_video e (rseed rq) (upload_video (upfile rq)) = Inr (pred, conf)"
      by simp
    have "completes e rq" by (simp add: completes_def predict_quiet [OF pv False])
    then show ?thesis
      by (intro exI [of _ "new_record rq pred conf"])
        (simp add: predict_quiet [OF pv False] new_record_def)
  qed
qed

lemma step_logs_keys:
  "map (\<lambda>r. (time r, filename r)) (dashboard_logs (step e ev st))
     = rev (map (\<lambda>rq. (now rq, upload_filename (upfile rq))) (completed e [ev]))
       @ map (\<lambda>r. (time r, filename r)) (dashboard_logs st)"
proof (cases ev)
  case (Upload rq)
  from predict_logs_head [of rq e st] obtain r where
    "time r = now rq" "filename r = upload_filename (upfile rq)"
    "dashboard_logs (snd (predict e rq st)) = (if completes e rq then [r] else []) @ dashboard_logs st"
    by blast
  with Upload show ?thesis by simp
next
  case (Wake ok)
  then show ?thesis by (simp add: summary_worker_turn_eq)
next
  case Home
  then show ?thesis by (simp add: home_def recent_def)
next
  case Dashboard
  then show ?thesis by (simp add: dashboard_def)
qed

lemma completed_Cons: "completed e (ev # evs) = completed e [ev] @ completed e evs"
  by (cases ev) simp_all

lemma run_logs_keys:
  "map (\<lambda>r. (time r, filename r)) (dashboard_logs (run e evs st))
     = rev (map (\<lambda>rq. (now rq, upload_filename (upfile rq))) (completed e evs))
       @ map (\<lambda>r. (time r, filename r)) (dashboard_logs st)"
proof (induction evs arbitrary: st)
  case Nil
  then show ?case by simp
next
  case (Cons ev evs)
  have "map (\<lambda>r. (time r, filename r)) (dashboard_logs (run e (ev # evs) st))
      = rev (map (\<lambda>rq. (now rq, upload_filename (upfile rq))) (completed e evs))
        @ map (\<lambda>r. (time r, filename r)) (dashboard_logs (step e ev st))"
    using Cons.IH [of "step e ev st"] by simp
  also have "\<dots> = rev (map (\<lambda>rq. (now rq, upload_filename (upfile rq))) (completed e evs))
        @ rev (map (\<lambda>rq. (now rq, upload_filename (upfile rq))) (completed e [ev]))
        @ map (\<lambda>r. (time r, filename r)) (dashboard_logs st)"
    by (simp only: step_logs_keys)
  also have "\<dots> = rev (map (\<lambda>rq. (now rq, upload_filename (upfile rq))) (completed e (ev # evs)))
        @ map (\<lambda>r. (time r, filename r)) (dashboard_logs st)"
    by (subst completed_Cons [of e ev evs]) simp
  finally show ?case .
qed

text \<open>
  C8. A request that completes puts its record at the head of \<^verbatim>\<open>dashboard_logs\<close> and
  leaves the rest as it was; one that fails adds nothing. Reading the slice
  \<^verbatim>\<open>dashboard_logs[:limit]\<close> (the home page with limit 10; the dashboard reads the whole
  list) returns at most \<open>limit\<close> records and leaves the state as it was, so a second read
  returns the same. After any trace from the initial state the slice lists the completed
  uploads, newest first.
\<close>

theorem log_order:
  "(\<exists>r. time r = now rq \<and> filename r = upload_filename (upfile rq)
       \<and> dashboard_logs (snd (predict e rq st))
           = (if completes e rq then [r] else []) @ dashboard_logs st)
   \<and> completes e rq = (case fst (predict e rq st) of Inl _ \<Rightarrow> False | Inr _ \<Rightarrow> True)
   \<and> recent limit st = (take limit (dashboard_logs st), st)
   \<and> length (fst (recent limit st)) \<le> limit
   \<and> home st = recent 10 st
   \<and> dashboard st = (dashboard_logs st, st)
   \<and> recent limit (snd (recent limit st)) = recent limit st
   \<and> map (\<lambda>r. (time r, filename r)) (fst (recent limit (run e evs init)))
       = take limit (rev (map (\<lambda>rq. (now rq, upload_filename (upfile rq))) (completed e evs)))"
proof -
  have k: "map (\<lambda>r. (time r, filename r)) (dashboard_logs (run e evs init))
       = rev (map (\<lambda>rq. (now rq, upload_filename (upfile rq))) (completed e evs))"
    using run_logs_keys [of e evs init] by (simp add: init_def)
  have "map (\<lambda>r. (time r, filename r)) (fst (recent limit (run e evs init)))
       = take limit (rev (map (\<lambda>rq. (now rq, upload_filename (upfile rq))) (completed e evs)))"
    by (simp only: recent_def fst_conv take_map [symmetric] k)
  moreover have "completes e rq = (case fst (predict e rq st) of Inl _ \<Rightarrow> False | Inr _ \<Rightarrow> True)"
    using predict_fst_indep [of e rq init st] by (simp add: completes_def)
  ultimately show ?thesis
    using predict_logs_head [of rq e st]
    by (simp add: recent_def home_def dashboard_def)
qed

lemma quiet_completes: "completes (stub_env [9 / 10, 1 / 10]) rq"
proof -
  have pv: "predict_video (stub_env [9 / 10, 1 / 10]) (rseed rq) (upload_video (upfile rq))
      = Inr (''not_suspicious'', 9 / 10)"
    using predict_video_stub [of "9 / 10" "1 / 10"] by simp
  have no: "\<not> (''not_suspicious'' = ''suspicious'' \<and> ALERT_THRESHOLD \<le> 9 / 10)" by simp
  show ?thesis by (simp add: completes_def predict_quiet [OF pv no])
qed

theorem log_order_witness:
  "map (\<lambda>r. (time r, filename r))
     (fst (recent 1 (run (stub_env [9 / 10, 1 / 10])
        [Upload (sample_request 5 True), Home,
         Upload ((sample_request 5 True)\<lparr>now := ''2024-01-01 11:00:00''\<rparr>)] init)))
     = [(''2024-01-01 11:00:00'', ''cam1.mp4'')]
   \<and> map (\<lambda>r. (time r, filename r))
     (fst (recent 10 (run (stub_env [9 / 10, 1 / 10])
        [Upload (sample_request 5 True), Home,
         Upload ((sample_request 5 True)\<lparr>now := ''2024-01-01 11:00:00''\<rparr>)] init)))
     = [(''2024-01-01 11:00:00'', ''cam1.mp4''), (''2024-01-01 10:00:00'', ''cam1.mp4'')]"
proof -
  let ?e = "stub_env [9 / 10, 1 / 10]"
  let ?evs = "[Upload (sample_request 5 True), Home,
         Upload ((sample_request 5 True)\<lparr>now := ''2024-01-01 11:00:00''\<rparr>)]"
  have c: "completed ?e ?evs
      = [sample_request 5 True, (sample_request 5 True)\<lparr>now := ''2024-01-01 11:00:00''\<rparr>]"
    by (simp add: quiet_completes)
  from log_order [where e = ?e and evs = ?evs and limit = 1]
  have a: "map (\<lambda>r. (time r, filename r)) (fst (recent 1 (run ?e ?evs init)))
       = take 1 (rev (map (\<lambda>rq. (now rq, upload_filename (upfile rq))) (completed ?e ?evs)))"
    by blast
  from log_order [where e = ?e and evs = ?evs and limit = 10]
  have b: "map (\<lambda>r. (time r, filename r)) (fst (recent 10 (run ?e ?evs init)))
       = take 10 (rev (map (\<lambda>rq. (now rq, upload_filename (upfile rq))) (completed ?e ?evs)))"
    by blast
  show ?thesis
    by (simp only: a b c) (simp add: sample_request_def)
qed

subsection \<open>Rounding to decimals\<close>

lemma py_round_nearest:
  "\<exists>k. py_round x nd = of_int k / 10 ^ nd
      \<and> (\<bar>py_round x nd - x\<bar> * 10 ^ nd < 1 / 2
         \<or> \<bar>py_round x nd - x\<bar> * 10 ^ nd = 1 / 2 \<and> even k)"
proof -
  define s :: real where "s = 10 ^ nd"
  define y where "y = x * s"
  define f where "f = \<lfloor>y\<rfloor>"
  define d where "d = y - of_int f"
  define k where "k = (if d < 1 / 2 then f else if d > 1 / 2 then f + 1
                       else if even f then f else f + 1)"
  have s: "0 < s" by (simp add: s_def)
  have d0: "0 \<le> d" and d1: "d < 1"
    unfolding d_def f_def by linarith+
  have pr: "py_round x nd = of_int k / s"
    by (simp add: py_round_def Let_def k_def d_def f_def y_def s_def)
  have "\<bar>of_int k / s - x\<bar> * s = \<bar>(of_int k / s - x) * s\<bar>"
    using s by (simp add: abs_mult)
  also have "(of_int k / s - x) * s = of_int k - y"
    using s by (simp add: y_def field_simps)
  finally have dist: "\<bar>py_round x nd - x\<bar> * s = \<bar>of_int k - y\<bar>"
    by (simp add: pr)
  have y: "y = of_int f + d" by (simp add: d_def)
  have "\<bar>of_int k - y\<bar> < 1 / 2 \<or> \<bar>of_int k - y\<bar> = 1 / 2 \<and> even k"
  proof (cases "d < 1 / 2")
    case True
    then have "k = f" by (simp add: k_def)
    with True d0 y show ?thesis by simp
  next
    case False
    show ?thesis
    proof (cases "d > 1 / 2")
      case True
      then have "k = f + 1" using False by (simp add: k_def)
      with True d1 y show ?thesis by simp
    next
      case nt: False
      with False have dh: "d = 1 / 2" by simp
      show ?thesis
      proof (cases "even f")
        case True
        then have "k = f" using dh by (simp add: k_def)
        with True dh y show ?thesis by simp
      next
        case odd: False
        then have "k = f + 1" using dh by (simp add: k_def)
        with odd dh y show ?thesis by simp
      qed
    qed
  qed
  with dist pr show ?thesis unfolding s_def by metis
qed

lemma py_round3_nearest:
  "\<exists>k. py_round x 3 = of_int k / 1000
      \<and> (\<bar>py_round x 3 - x\<bar> < 1 / 2000
         \<or> \<bar>py_round x 3 - x\<bar> = 1 / 2000 \<and> even k)"
proof -
  from py_round_nearest [of x 3] obtain k where
    a: "py_round x 3 = of_int k / 10 ^ 3"
    and b: "\<bar>py_round x 3 - x\<bar> * 10 ^ 3 < 1 / 2
         \<or> \<bar>py_round x 3 - x\<bar> * 10 ^ 3 = 1 / 2 \<and> even k" by blast
  from a have "py_round x 3 = of_int k / 1000" by simp
  moreover from b have "\<bar>py_round x 3 - x\<bar> < 1 / 2000
         \<or> \<bar>py_round x 3 - x\<bar> = 1 / 2000 \<and> even k" by auto
  ultimately show ?thesis by blast
qed

subsection \<open>Failures of the inference call\<close>

lemma predict_video_failure_stage:
  assumes "predict_video e seed v = Inl err"
  shows "(case movinet_sig e (extract_frames e seed v) of
            Inl x \<Rightarrow> err = x
          | Inr features \<Rightarrow>
              (case clf_predict e features of
                 Inl x \<Rightarrow> err = x
               | Inr out \<Rightarrow>
                   (case out of
                      [] \<Rightarrow> err = IndexError
                    | probs # _ \<Rightarrow>
                        (case probs of [] \<Rightarrow> err = ValueError | _ # _ \<Rightarrow> err = KeyError))))"
  using assms
  by (auto simp: predict_video_def Let_def argmax_def
      split: sum.splits list.splits option.splits)

lemma empty_request_pv:
  "predict_video (stub_env [9 / 10, 1 / 10]) (rseed (empty_request ok))
     (upload_video (upfile (empty_request ok))) = Inr (''not_suspicious'', 9 / 10)"
  using predict_video_stub [of "9 / 10" "1 / 10"] by simp

text \<open>
  C3, as stated, fails for the decode stage. The upload of a file that cannot be opened
  (no frame is decoded) is not a failed call: the all-zero clip is classified, the
  request is answered with a page, and the record is inserted into \<^verbatim>\<open>dashboard_logs\<close>.
\<close>

theorem decode_failure_logged_counterexample:
  "decoded_frames (stub_env [9 / 10, 1 / 10]) (rseed (empty_request True))
      (upload_video (upfile (empty_request True))) = []
   \<and> fst (predict (stub_env [9 / 10, 1 / 10]) (empty_request True) init)
       = Inr \<lparr>page_filename = ''bad.mp4'', page_pred = ''not_suspicious'',
               page_conf = 9 / 10, page_alert = ''NO''\<rparr>
   \<and> dashboard_logs (snd (predict (stub_env [9 / 10, 1 / 10]) (empty_request True) init))
       = [\<lparr>time = ''2024-01-01 12:00:00'', filename = ''bad.mp4'',
           prediction = ''not_suspicious'', confidence = 9 / 10, alert = ''NO''\<rparr>]"
proof -
  let ?e = "stub_env [9 / 10, 1 / 10]"
  have no: "\<not> (''not_suspicious'' = ''suspicious'' \<and> ALERT_THRESHOLD \<le> 9 / 10)" by simp
  have r2: "py_round (9 / 10) 2 = 9 / 10" by (simp add: py_round_def Let_def)
  have d: "decoded_frames ?e (rseed (empty_request True))
      (upload_video (upfile (empty_request True))) = []"
    by (rule decoded_frames_none) (simp add: empty_request_def video_empty_def)
  have p: "fst (predict ?e (empty_request True) init)
       = Inr \<lparr>page_filename = ''bad.mp4'', page_pred = ''not_suspicious'',
               page_conf = 9 / 10, page_alert = ''NO''\<rparr>"
    apply (simp only: predict_quiet [OF empty_request_pv no] fst_conv)
    using r2 apply (simp add: empty_request_def)
    done
  have l: "dashboard_logs (snd (predict ?e (empty_request True) init))
       = [\<lparr>time = ''2024-01-01 12:00:00'', filename = ''bad.mp4'',
           prediction = ''not_suspicious'', confidence = 9 / 10, alert = ''NO''\<rparr>]"
    apply (simp only: predict_quiet [OF empty_request_pv no] snd_conv)
    using py_round_900 apply (simp add: empty_request_def new_record_def init_def)
    done
  show ?thesis by (intro conjI d p l)
qed

text \<open>
  C3, amended. The inference call fails only after the clip is built: when the embedding
  model or the classifier raises, when the classifier returns no row or an empty row, or
  when the label index is unknown. Every such failure ends the handler with that
  exception: nothing is added to \<^verbatim>\<open>dashboard_logs\<close> or to the daily buffer and no mail is
  attempted. Frame extraction itself never fails.
\<close>

theorem predict_failure_leaves_log:
  assumes "predict_video e (rseed rq) (upload_video (upfile rq)) = Inl err"
  shows "fst (predict e rq st) = Inl err
       \<and> dashboard_logs (snd (predict e rq st)) = dashboard_logs st
       \<and> daily_alert_buffer (snd (predict e rq st)) = daily_alert_buffer st
       \<and> smtp_calls (snd (predict e rq st)) = smtp_calls st
       \<and> (case movinet_sig e (extract_frames e (rseed rq) (upload_video (upfile rq))) of
            Inl x \<Rightarrow> err = x
          | Inr features \<Rightarrow>
              (case clf_predict e features of
                 Inl x \<Rightarrow> err = x
               | Inr out \<Rightarrow>
                   (case out of
                      [] \<Rightarrow> err = IndexError
                    | probs # _ \<Rightarrow>
                        (case probs of [] \<Rightarrow> err = ValueError | _ # _ \<Rightarrow> err = KeyError))))"
  using predict_video_failure_stage [OF assms]
  by (simp add: predict_failed [OF assms])

theorem predict_failure_leaves_log_witness:
  "fst (predict broken_env (sample_request 1000 True) init) = Inl ModelError
   \<and> dashboard_logs (snd (predict broken_env (sample_request 1000 True) init)) = []
   \<and> fst (predict (stub_env []) (sample_request 1000 True) init) = Inl ValueError
   \<and> dashboard_logs (snd (predict (stub_env []) (sample_request 1000 True) init)) = []"
proof -
  have pv: "predict_video (stub_env []) (rseed (sample_request 1000 True))
      (upload_video (upfile (sample_request 1000 True))) = Inl ValueError"
    by (simp add: predict_video_def stub_env_def argmax_def Let_def)
  from predict_failure_leaves_log [OF predict_video_broken, of "sample_request 1000 True" init]
    predict_failure_leaves_log [OF pv, of init]
  show ?thesis by (simp add: init_def)
qed

subsection \<open>The alert decision\<close>

text \<open>
  C5, as stated, fails in its last part. At confidence 0.80 with a send that fails, the
  request ends with the SMTP exception and records nothing: the status is neither SENT
  nor FAILED, there is none.
\<close>

theorem threshold_failed_send_counterexample:
  "fst (predict (stub_env [20 / 100, 80 / 100]) (sample_request 5 False) init) = Inl SMTPError
   \<and> dashboard_logs (snd (predict (stub_env [20 / 100, 80 / 100]) (sample_request 5 False) init)) = []
   \<and> \<not> (\<exists>pg. fst (predict (stub_env [20 / 100, 80 / 100]) (sample_request 5 False) init) = Inr pg
              \<and> (page_alert pg = ''SENT'' \<or> page_alert pg = ''FAILED''))"
proof -
  have pv: "predict_video (stub_env [20 / 100, 80 / 100]) (rseed (sample_request 5 False))
              (upload_video (upfile (sample_request 5 False))) = Inr (''suspicious'', 80 / 100)"
    by (simp add: predict_video_stub)
  have th: "ALERT_THRESHOLD \<le> 80 / 100" by (simp add: ALERT_THRESHOLD_def)
  have ok: "smtp_ok (sample_request 5 False) = False" by (simp add: sample_request_def)
  show ?thesis
    by (simp only: predict_alert [OF pv th] ok if_False) (simp add: init_def)
qed

text \<open>
  C5, amended. An alert is attempted exactly when the label is \<open>suspicious\<close> and the
  confidence is at least \<open>ALERT_THRESHOLD = 0.80\<close>: then there is one more call of
  \<^verbatim>\<open>_smtp_send\<close>, and the request either logs the record with alert SENT or, when the send
  fails, ends with the SMTP exception and logs nothing; it never logs alert NO. Otherwise
  no call is made, the buffer is untouched and the record is logged with alert NO.
\<close>

theorem alert_decision:
  assumes "predict_video e (rseed rq) (upload_video (upfile rq)) = Inr (pred, conf)"
  shows "length (smtp_calls (snd (predict e rq st)))
           = length (smtp_calls st) + (if pred = ''suspicious'' \<and> ALERT_THRESHOLD \<le> conf then 1 else 0)
       \<and> ALERT_THRESHOLD = 80 / 100
       \<and> (if pred = ''suspicious'' \<and> ALERT_THRESHOLD \<le> conf
          then (if smtp_ok rq
                then map_sum id page_alert (fst (predict e rq st)) = Inr ''SENT''
                   \<and> dashboard_logs (snd (predict e rq st))
                       = (new_record rq pred conf)\<lparr>alert := ''SENT''\<rparr> # dashboard_logs st
                else fst (predict e rq st) = Inl SMTPError
                   \<and> dashboard_logs (snd (predict e rq st)) = dashboard_logs st)
          else map_sum id page_alert (fst (predict e rq st)) = Inr ''NO''
             \<and> dashboard_logs (snd (predict e rq st)) = new_record rq pred conf # dashboard_logs st
             \<and> alert (new_record rq pred conf) = ''NO''
             \<and> daily_alert_buffer (snd (predict e rq st)) = daily_alert_buffer st
             \<and> smtp_calls (snd (predict e rq st)) = smtp_calls st)"
proof (cases "pred = ''suspicious'' \<and> ALERT_THRESHOLD \<le> conf")
  case True
  then have pv: "predict_video e (rseed rq) (upload_video (upfile rq)) = Inr (''suspicious'', conf)"
    and th: "ALERT_THRESHOLD \<le> conf" using assms by simp_all
  show ?thesis using True
    by (simp add: predict_alert [OF pv th] ALERT_THRESHOLD_def)
next
  case False
  show ?thesis using False
    by (simp add: predict_quiet [OF assms False] ALERT_THRESHOLD_def new_record_def)
qed

theorem alert_decision_witness:
  "smtp_calls (snd (predict (stub_env [21 / 100, 79 / 100]) (sample_request 5 True) init)) = []
   \<and> map alert (dashboard_logs (snd (predict (stub_env [21 / 100, 79 / 100]) (sample_request 5 True) init)))
       = [''NO'']
   \<and> length (smtp_calls (snd (predict (stub_env [20 / 100, 80 / 100]) (sample_request 5 True) init))) = 1
   \<and> map alert (dashboard_logs (snd (predict (stub_env [20 / 100, 80 / 100]) (sample_request 5 True) init)))
       = [''SENT'']
   \<and> length (smtp_calls (snd (predict (stub_env [20 / 100, 80 / 100]) (sample_request 5 False) init))) = 1
   \<and> fst (predict (stub_env [20 / 100, 80 / 100]) (sample_request 5 False) init) = Inl SMTPError
   \<and> dashboard_logs (snd (predict (stub_env [20 / 100, 80 / 100]) (sample_request 5 False) init)) = []"
proof -
  have pv1: "predict_video (stub_env [21 / 100, 79 / 100]) (rseed (sample_request 5 ok))
              (upload_video (upfile (sample_request 5 ok))) = Inr (''suspicious'', 79 / 100)" for ok
    by (simp add: predict_video_stub)
  have pv2: "predict_video (stub_env [20 / 100, 80 / 100]) (rseed (sample_request 5 ok))
              (upload_video (upfile (sample_request 5 ok))) = Inr (''suspicious'', 80 / 100)" for ok
    by (simp add: predict_video_stub)
  have ok: "smtp_ok (sample_request 5 True)" and nok: "\<not> smtp_ok (sample_request 5 False)"
    by (simp_all add: sample_request_def)
  have th1: "\<not> ALERT_THRESHOLD \<le> 79 / 100" and th2: "ALERT_THRESHOLD \<le> 80 / 100"
    by (simp_all add: ALERT_THRESHOLD_def)
  let ?st1 = "snd (predict (stub_env [21 / 100, 79 / 100]) (sample_request 5 True) init)"
  let ?st2 = "snd (predict (stub_env [20 / 100, 80 / 100]) (sample_request 5 True) init)"
  let ?st3 = "snd (predict (stub_env [20 / 100, 80 / 100]) (sample_request 5 False) init)"
  from alert_decision [OF pv1, of True init] th1
  have a: "smtp_calls ?st1 = smtp_calls init"
    "dashboard_logs ?st1 = new_record (sample_request 5 True) ''suspicious'' (79 / 100) # dashboard_logs init"
    by simp_all
  from alert_decision [OF pv2, of True init] th2 ok
  have b: "length (smtp_calls ?st2) = length (smtp_calls init) + 1"
    "dashboard_logs ?st2 = (new_record (sample_request 5 True) ''suspicious'' (80 / 100))
         \<lparr>alert := ''SENT''\<rparr> # dashboard_logs init"
    by simp_all
  from alert_decision [OF pv2, of False init] th2 nok
  have c: "length (smtp_calls ?st3) = length (smtp_calls init) + 1"
    "fst (predict (stub_env [20 / 100, 80 / 100]) (sample_request 5 False) init) = Inl SMTPError"
    "dashboard_logs ?st3 = dashboard_logs init"
    by simp_all
  show ?thesis
    by (simp only: a b c) (simp add: init_def new_record_def)
qed

subsection \<open>The stored confidence\<close>

text \<open>
  C10. In a request that completes, the record that is logged (and, when the alert went
  out, buffered) carries the confidence rounded to three decimals: a multiple of 0.001
  nearest to the classifier's confidence, the even one of two equally near. The alert
  was decided on the unrounded confidence. The two can disagree about the threshold:
  0.7996 is below 0.80 and is stored as 0.8.
\<close>

theorem stored_confidence_rounded:
  assumes "predict_video e (rseed rq) (upload_video (upfile rq)) = Inr (pred, conf)"
    and "fst (predict e rq st) = Inr pg"
  shows "dashboard_logs (snd (predict e rq st))
           = (new_record rq pred conf)
               \<lparr>alert := (if pred = ''suspicious'' \<and> ALERT_THRESHOLD \<le> conf then ''SENT'' else ''NO'')\<rparr>
             # dashboard_logs st
       \<and> confidence (hd (dashboard_logs (snd (predict e rq st)))) = py_round conf 3
       \<and> (\<exists>k. confidence (hd (dashboard_logs (snd (predict e rq st)))) = of_int k / 1000
             \<and> (\<bar>confidence (hd (dashboard_logs (snd (predict e rq st)))) - conf\<bar> < 1 / 2000
                \<or> \<bar>confidence (hd (dashboard_logs (snd (predict e rq st)))) - conf\<bar> = 1 / 2000
                  \<and> even k))
       \<and> daily_alert_buffer (snd (predict e rq st))
           = daily_alert_buffer st
             @ (if pred = ''suspicious'' \<and> ALERT_THRESHOLD \<le> conf
                then [hd (dashboard_logs (snd (predict e rq st)))] else [])
       \<and> (alert (hd (dashboard_logs (snd (predict e rq st)))) = ''SENT'')
           = (pred = ''suspicious'' \<and> ALERT_THRESHOLD \<le> conf)
       \<and> py_round (7996 / 10000) 3 = ALERT_THRESHOLD
       \<and> 7996 / 10000 < ALERT_THRESHOLD"
proof -
  let ?D = "pred = ''suspicious'' \<and> ALERT_THRESHOLD \<le> conf"
  let ?st' = "snd (predict e rq st)"
  have sent: "predict_video e (rseed rq) (upload_video (upfile rq)) = Inr (''suspicious'', conf)
      \<and> ALERT_THRESHOLD \<le> conf \<and> smtp_ok rq" if d: ?D
  proof -
    from d assms(1)
    have pv: "predict_video e (rseed rq) (upload_video (upfile rq)) = Inr (''suspicious'', conf)"
      and th: "ALERT_THRESHOLD \<le> conf" by simp_all
    have "smtp_ok rq"
    proof (rule ccontr)
      assume "\<not> smtp_ok rq"
      then have "fst (predict e rq st) = Inl SMTPError" by (simp add: predict_alert [OF pv th])
      with assms(2) show False by simp
    qed
    with pv th show ?thesis by simp
  qed
  have logs: "dashboard_logs ?st'
           = (new_record rq pred conf)\<lparr>alert := (if ?D then ''SENT'' else ''NO'')\<rparr> # dashboard_logs st"
  proof (cases ?D)
    case True
    from sent [OF True] have pv: "predict_video e (rseed rq) (upload_video (upfile rq)) = Inr (''suspicious'', conf)"
      and th: "ALERT_THRESHOLD \<le> conf" and ok: "smtp_ok rq" by simp_all
    show ?thesis using True ok by (simp add: predict_alert [OF pv th])
  next
    case False
    then show ?thesis by (simp add: predict_quiet [OF assms(1) False] new_record_def)
  qed
  have buf: "daily_alert_buffer ?st'
           = daily_alert_buffer st
             @ (if ?D then [(new_record rq pred conf)\<lparr>alert := ''SENT''\<rparr>] else [])"
  proof (cases ?D)
    case True
    from sent [OF True] have pv: "predict_video e (rseed rq) (upload_video (upfile rq)) = Inr (''suspicious'', conf)"
      and th: "ALERT_THRESHOLD \<le> conf" and ok: "smtp_ok rq" by simp_all
    show ?thesis using True ok by (simp add: predict_alert [OF pv th])
  next
    case False
    then show ?thesis by (simp add: predict_quiet [OF assms(1) False])
  qed
  have c1: "confidence (hd (dashboard_logs ?st')) = py_round conf 3"
    by (simp add: logs new_record_def)
  have c2: "daily_alert_buffer ?st'
           = daily_alert_buffer st @ (if ?D then [hd (dashboard_logs ?st')] else [])"
    by (simp add: buf logs)
  have c3: "(alert (hd (dashboard_logs ?st')) = ''SENT'') = ?D"
    by (simp add: logs)
  have c6: "\<exists>k. confidence (hd (dashboard_logs ?st')) = of_int k / 1000
             \<and> (\<bar>confidence (hd (dashboard_logs ?st')) - conf\<bar> < 1 / 2000
                \<or> \<bar>confidence (hd (dashboard_logs ?st')) - conf\<bar> = 1 / 2000 \<and> even k)"
    unfolding c1 by (rule py_round3_nearest)
  have c4: "py_round (7996 / 10000) 3 = ALERT_THRESHOLD"
    by (simp add: py_round_def Let_def ALERT_THRESHOLD_def)
  have c5: "7996 / 10000 < ALERT_THRESHOLD"
    by (simp add: ALERT_THRESHOLD_def)
  show ?thesis
    by (intro conjI logs c1 c6 c2 c3 c4 c5)
qed

theorem stored_confidence_rounded_witness:
  "map confidence (dashboard_logs (snd (predict (stub_env [2004 / 10000, 7996 / 10000])
        (sample_request 5 True) init))) = [8 / 10]
   \<and> map alert (dashboard_logs (snd (predict (stub_env [2004 / 10000, 7996 / 10000])
        (sample_request 5 True) init))) = [''NO'']
   \<and> daily_alert_buffer (snd (predict (stub_env [2004 / 10000, 7996 / 10000])
        (sample_request 5 True) init)) = []"
proof -
  let ?e = "stub_env [2004 / 10000, 7996 / 10000]"
  let ?rq = "sample_request 5 True"
  have pv: "predict_video ?e (rseed ?rq) (upload_video (upfile ?rq)) = Inr (''suspicious'', 7996 / 10000)"
    by (simp add: predict_video_stub)
  have no: "\<not> (''suspicious'' = ''suspicious'' \<and> ALERT_THRESHOLD \<le> 7996 / 10000)"
    by (simp add: ALERT_THRESHOLD_def)
  have pg: "fst (predict ?e ?rq init) = Inr \<lparr>page_filename = upload_filename (upfile ?rq),
      page_pred = ''suspicious'', page_conf = py_round (7996 / 10000) 2, page_alert = ''NO''\<rparr>"
    using predict_quiet [OF pv no, of init] by simp
  have r: "py_round (7996 / 10000) 3 = 8 / 10"
    by (simp add: py_round_def Let_def)
  from stored_confidence_rounded [OF pv pg] no
  have l: "dashboard_logs (snd (predict ?e ?rq init))
          = (new_record ?rq ''suspicious'' (7996 / 10000))\<lparr>alert := ''NO''\<rparr> # dashboard_logs init"
    and b: "daily_alert_buffer (snd (predict ?e ?rq init)) = daily_alert_buffer init @ []"
    by simp_all
  show ?thesis
    apply (simp only: l b)
    using r apply (simp add: new_record_def init_def)
    done
qed

subsection \<open>Where the records of the daily buffer come from\<close>

lemma predict_buffer_exact:
  "daily_alert_buffer (snd (predict e rq st))
     = daily_alert_buffer st
       @ (case predict_video e (rseed rq) (upload_video (upfile rq)) of
            Inl _ \<Rightarrow> []
          | Inr (pred, conf) \<Rightarrow>
              if pred = ''suspicious'' \<and> ALERT_THRESHOLD \<le> conf \<and> smtp_ok rq
              then [\<lparr>time = now rq, filename = upload_filename (upfile rq), prediction = pred,
                      confidence = py_round conf 3, alert = ''SENT''\<rparr>]
              else [])"
proof (cases "predict_video e (rseed rq) (upload_video (upfile rq))")
  case (Inl err)
  then show ?thesis by (simp add: predict_failed)
next
  case (Inr pc)
  obtain pred conf where pc: "pc = (pred, conf)" by (cases pc)
  show ?thesis
  proof (cases "pred = ''suspicious'' \<and> ALERT_THRESHOLD \<le> conf")
    case True
    with Inr pc
    have pv: "predict_video e (rseed rq) (upload_video (upfile rq)) = Inr (''suspicious'', conf)"
      and th: "ALERT_THRESHOLD \<le> conf" by simp_all
    show ?thesis using th by (simp add: predict_alert [OF pv th] pv new_record_def)
  next
    case False
    from Inr pc have pv: "predict_video e (rseed rq) (upload_video (upfile rq)) = Inr (pred, conf)"
      by simp
    show ?thesis using False by (auto simp: predict_quiet [OF pv False] pv)
  qed
qed

lemma predict_buffer_dispatched:
  assumes "r \<in> set (daily_alert_buffer (snd (predict e rq st)))"
  shows "r \<in> set (daily_alert_buffer st) \<or> dispatched e rq r"
  using assms
  by (auto simp: predict_buffer_exact dispatched_def split: sum.splits prod.splits if_splits)

lemma step_dispatched:
  assumes "r \<in> set (daily_alert_buffer (step e ev st))"
  shows "r \<in> set (daily_alert_buffer st) \<or> (\<exists>rq \<in> set (uploads_of [ev]). dispatched e rq r)"
proof (cases ev)
  case (Upload rq)
  with assms predict_buffer_dispatched [of r e rq st] show ?thesis by simp
next
  case (Wake ok)
  with assms show ?thesis by (simp add: summary_worker_turn_eq split: if_splits)
next
  case Home
  with assms show ?thesis by (simp add: home_def recent_def)
next
  case Dashboard
  with assms show ?thesis by (simp add: dashboard_def)
qed

lemma uploads_of_Cons: "uploads_of (ev # evs) = uploads_of [ev] @ uploads_of evs"
  by (cases ev) simp_all

lemma run_dispatched:
  assumes "r \<in> set (daily_alert_buffer (run e evs st))"
  shows "r \<in> set (daily_alert_buffer st) \<or> (\<exists>rq \<in> set (uploads_of evs). dispatched e rq r)"
  using assms
proof (induction evs arbitrary: st)
  case Nil
  then show ?case by simp
next
  case (Cons ev evs)
  from Cons.prems have "r \<in> set (daily_alert_buffer (run e evs (step e ev st)))" by simp
  from Cons.IH [OF this]
  have "r \<in> set (daily_alert_buffer (step e ev st))
      \<or> (\<exists>rq \<in> set (uploads_of evs). dispatched e rq r)" .
  then show ?case
  proof
    assume "r \<in> set (daily_alert_buffer (step e ev st))"
    from step_dispatched [OF this] show ?thesis
      by (subst uploads_of_Cons) auto
  next
    assume "\<exists>rq \<in> set (uploads_of evs). dispatched e rq r"
    then show ?thesis by (subst uploads_of_Cons) auto
  qed
qed

lemma dispatched_fields:
  "dispatched e rq r \<Longrightarrow> prediction r = ''suspicious'' \<and> alert r = ''SENT''"
  by (auto simp: dispatched_def split: sum.splits prod.splits)

text \<open>
  C9. In every state reached from the initial one, every record of the daily buffer
  comes from the dispatch of an upload of the trace: the inference on that upload gave
  \<open>suspicious\<close> with a confidence of at least \<open>ALERT_THRESHOLD\<close>, the alert was sent, and
  the record is the one of that detection with alert SENT. The handler appends to the
  buffer exactly on that path: nothing when the inference fails, when the label or the
  confidence does not trigger the alert, or when the send fails.
\<close>

theorem daily_buffer_invariant:
  "list_all (\<lambda>r. list_ex (\<lambda>rq. dispatched e rq r) (uploads_of evs))
      (daily_alert_buffer (run e evs init))
   \<and> list_all (\<lambda>r. prediction r = ''suspicious'' \<and> alert r = ''SENT'')
      (daily_alert_buffer (run e evs init))
   \<and> daily_alert_buffer (snd (predict e rq st))
       = daily_alert_buffer st
         @ (case predict_video e (rseed rq) (upload_video (upfile rq)) of
              Inl _ \<Rightarrow> []
            | Inr (pred, conf) \<Rightarrow>
                if pred = ''suspicious'' \<and> ALERT_THRESHOLD \<le> conf \<and> smtp_ok rq
                then [\<lparr>time = now rq, filename = upload_filename (upfile rq), prediction = pred,
                        confidence = py_round conf 3, alert = ''SENT''\<rparr>]
                else [])"
proof -
  have d: "\<exists>rq \<in> set (uploads_of evs). dispatched e rq r"
    if "r \<in> set (daily_alert_buffer (run e evs init))" for r
    using run_dispatched [OF that] by (simp add: init_def)
  have a: "list_all (\<lambda>r. list_ex (\<lambda>rq. dispatched e rq r) (uploads_of evs))
      (daily_alert_buffer (run e evs init))"
    using d by (simp add: list_all_iff list_ex_iff)
  have b: "list_all (\<lambda>r. prediction r = ''suspicious'' \<and> alert r = ''SENT'')
      (daily_alert_buffer (run e evs init))"
    using d dispatched_fields by (fastforce simp: list_all_iff)
  show ?thesis
    by (intro conjI a b predict_buffer_exact)
qed

theorem daily_buffer_invariant_witness:
  "daily_alert_buffer (run (stub_env [1 / 10, 9 / 10]) [Upload (sample_request 5 True)] init)
     = [\<lparr>time = ''2024-01-01 10:00:00'', filename = ''cam1.mp4'', prediction = ''suspicious'',
         confidence = 9 / 10, alert = ''SENT''\<rparr>]
   \<and> dispatched (stub_env [1 / 10, 9 / 10]) (sample_request 5 True)
        \<lparr>time = ''2024-01-01 10:00:00'', filename = ''cam1.mp4'', prediction = ''suspicious'',
         confidence = 9 / 10, alert = ''SENT''\<rparr>
   \<and> daily_alert_buffer
        (run (stub_env [2004 / 10000, 7996 / 10000]) [Upload (sample_request 5 True)] init) = []
   \<and> daily_alert_buffer (run (stub_env [1 / 10, 9 / 10]) [Upload (sample_request 5 False)] init) = []"
proof -
  let ?e = "stub_env [1 / 10, 9 / 10]"
  let ?r = "\<lparr>time = ''2024-01-01 10:00:00'', filename = ''cam1.mp4'', prediction = ''suspicious'',
         confidence = 9 / 10, alert = ''SENT''\<rparr>"
  have b: "daily_alert_buffer (run ?e [Upload (sample_request 5 True)] init) = [?r]"
    using sample_upload_sent [of 5 init] by (simp add: init_def)
  from daily_buffer_invariant [of ?e "[Upload (sample_request 5 True)]"]
  have "list_all (\<lambda>r. list_ex (\<lambda>rq. dispatched ?e rq r) (uploads_of [Upload (sample_request 5 True)]))
      (daily_alert_buffer (run ?e [Upload (sample_request 5 True)] init))"
    by blast
  then have d: "dispatched ?e (sample_request 5 True) ?r"
    by (simp only: b) simp
  have pv: "predict_video (stub_env [2004 / 10000, 7996 / 10000]) (rseed (sample_request 5 True))
      (upload_video (upfile (sample_request 5 True))) = Inr (''suspicious'', 7996 / 10000)"
    by (simp add: predict_video_stub)
  have th: "\<not> ALERT_THRESHOLD \<le> 7996 / 10000" by (simp add: ALERT_THRESHOLD_def)
  from daily_buffer_invariant [of "stub_env [2004 / 10000, 7996 / 10000]" "[]" "sample_request 5 True" init]
  have "daily_alert_buffer (snd (predict (stub_env [2004 / 10000, 7996 / 10000])
      (sample_request 5 True) init)) = daily_alert_buffer init"
    using th pv by simp
  then have c: "daily_alert_buffer
        (run (stub_env [2004 / 10000, 7996 / 10000]) [Upload (sample_request 5 True)] init) = []"
    by (simp add: init_def)
  have nok: "\<not> smtp_ok (sample_request 5 False)" by (simp add: sample_request_def)
  from daily_buffer_invariant [of ?e "[]" "sample_request 5 False" init]
  have "daily_alert_buffer (snd (predict ?e (sample_request 5 False) init)) = daily_alert_buffer init"
    using nok sample_pv [of 5 False] by simp
  then have f: "daily_alert_buffer (run ?e [Upload (sample_request 5 False)] init) = []"
    by (simp add: init_def)
  show ?thesis by (intro conjI b d c f)
qed

end
